theory Spec2Isabelle
  imports Complex_Main "HOL-Library.Char_ord" "HOL-Library.List_Lexorder" "HOL-Library.Word"
begin

unbundle bit_operations_syntax

section \<open>Exceptions\<close>

text \<open>
  The exceptions the modelled code raises.  \<open>AttributeError cls name\<close> is Python's
  failure to resolve attribute \<open>name\<close> on an instance of class \<open>cls\<close>.
\<close>

datatype error =
    ValueError
  | AttributeError string string
  | TypeError

section \<open>Arithmetic helpers of the Python runtime\<close>

text \<open>
  \<open>int(x ** 0.5)\<close> for an integer \<open>x \<ge> 0\<close>: the integer part of the square root.
  The float rounding of \<open>x ** 0.5\<close> is not modelled; the two agree as long as \<open>x\<close> is
  exactly representable as a float (\<open>x < 2 ^ 53\<close>).
\<close>

function isqrt_nat :: "nat \<Rightarrow> nat" where
  "isqrt_nat n =
     (if n < 2 then n
      else (let r = 2 * isqrt_nat (n div 4)
            in if (r + 1) * (r + 1) \<le> n then r + 1 else r))"
  by pat_completeness auto
termination
  by (relation "measure (\<lambda>n. n)") auto

declare isqrt_nat.simps [simp del]

definition int_sqrt :: "int \<Rightarrow> int" where
  "int_sqrt x = int (isqrt_nat (nat x))"

text \<open>\<open>list(range(a, b, step))\<close> for a positive \<open>step\<close>.\<close>

definition py_range3 :: "int \<Rightarrow> int \<Rightarrow> int \<Rightarrow> int list" where
  "py_range3 a b step =
     (if a < b then map (\<lambda>k. a + int k * step) [0 ..< nat ((b - a + step - 1) div step)]
      else [])"

section \<open>extended\_wheel.py\<close>

definition WHEEL_BASIS :: "(int \<times> int list) list" where
  "WHEEL_BASIS =
     [(6, [2, 3]),
      (30, [2, 3, 5]),
      (210, [2, 3, 5, 7]),
      (2310, [2, 3, 5, 7, 11]),
      (30030, [2, 3, 5, 7, 11, 13])]"

record ExtendedWheel =
  wheel_size :: int
  basis_primes :: "int list"
  decimal_aware :: bool
  spokes :: "int list"
  spoke_count :: nat
  decimal_weights :: "(int \<times> rat) list"

definition generate_spokes :: "int \<Rightarrow> int list \<Rightarrow> int list" where
  "generate_spokes ws basis =
     filter (\<lambda>i. list_all (\<lambda>p. i mod p \<noteq> 0) basis) [1 .. ws - 1]"

definition compute_decimal_weights :: "(int \<times> rat) list" where
  "compute_decimal_weights =
     [(1, 102 / 100), (3, 98 / 100), (7, 101 / 100), (9, 99 / 100),
      (0, 0), (2, 0), (4, 0), (5, 0), (6, 0), (8, 0)]"

text \<open>
  \<open>ExtendedWheel.__init__\<close>.  The attribute \<open>decimal_weights\<close> is only assigned when
  \<open>decimal_aware\<close> holds; the record carries the empty table otherwise, which no
  method reads in that case.
\<close>

definition ExtendedWheel_init :: "int \<Rightarrow> bool \<Rightarrow> error + ExtendedWheel" where
  "ExtendedWheel_init ws da =
     (case map_of WHEEL_BASIS ws of
        None \<Rightarrow> Inl ValueError
      | Some basis \<Rightarrow>
          (let sp = generate_spokes ws basis
           in Inr \<lparr> wheel_size = ws, basis_primes = basis, decimal_aware = da,
                    spokes = sp, spoke_count = length sp,
                    decimal_weights = (if da then compute_decimal_weights else []) \<rparr>))"

text \<open>
  The inner \<open>for spoke in self.spokes\<close> loop of \<open>generate_candidates\<close> for one wheel
  position: the candidates it yields, and whether it hit the \<open>return\<close>.
\<close>

fun spoke_loop :: "ExtendedWheel \<Rightarrow> int \<Rightarrow> int \<Rightarrow> int \<Rightarrow> int list \<Rightarrow> int list \<times> bool" where
  "spoke_loop w start end current_wheel [] = ([], False)"
| "spoke_loop w start end current_wheel (spoke # rest) =
     (let candidate = current_wheel + spoke
      in if start \<le> candidate \<and> candidate \<le> end then
           (let (ys, stop) = spoke_loop w start end current_wheel rest
            in if decimal_aware w then
                 (let last_digit = candidate mod 10;
                      weight = (case map_of (decimal_weights w) last_digit of
                                  None \<Rightarrow> 1 / 2 | Some x \<Rightarrow> x)
                  in if weight > 1 / 2 then (candidate # ys, stop) else (ys, stop))
               else (candidate # ys, stop))
         else if candidate > end then ([], True)
         else spoke_loop w start end current_wheel rest)"

text \<open>
  The \<open>while current_wheel <= end\<close> loop.  Every constructed wheel has a positive
  \<open>wheel_size\<close>; the test \<open>0 < wheel_size w\<close> only makes the recursion total on
  records that no constructor call produces.
\<close>

function wheel_loop :: "ExtendedWheel \<Rightarrow> int \<Rightarrow> int \<Rightarrow> int \<Rightarrow> int list" where
  "wheel_loop w start end current_wheel =
     (if current_wheel \<le> end \<and> 0 < wheel_size w then
        (case spoke_loop w start end current_wheel (spokes w) of
           (ys, stop) \<Rightarrow>
             if stop then ys
             else ys @ wheel_loop w start end (current_wheel + wheel_size w))
      else [])"
  by pat_completeness auto
termination
  by (relation "measure (\<lambda>(w, start, end, cw). nat (end + 1 - cw))") auto

declare wheel_loop.simps [simp del]

text \<open>The values \<open>generate_candidates\<close> yields, in the order it yields them.\<close>

definition generate_candidates :: "ExtendedWheel \<Rightarrow> int \<Rightarrow> int \<Rightarrow> int list" where
  "generate_candidates w start end =
     filter (\<lambda>p. start \<le> p \<and> p \<le> end) (basis_primes w)
     @ (let wheel_start = ((start - 1) div wheel_size w + 1) * wheel_size w
        in wheel_loop w start end wheel_start)"

text \<open>\<open>_get_small_primes\<close>: the sieve of Eratosthenes over a mutable list of flags.\<close>

definition mark_multiples :: "int \<Rightarrow> int \<Rightarrow> bool list \<Rightarrow> bool list" where
  "mark_multiples limit i is_prime =
     fold (\<lambda>j flags. flags[nat j := False]) (py_range3 (i * i) (limit + 1) i) is_prime"

definition get_small_primes :: "int \<Rightarrow> int list" where
  "get_small_primes limit =
     (if limit < 2 then []
      else (let is_prime0 = (replicate (nat (limit + 1)) True)[0 := False, 1 := False];
                is_prime = fold (\<lambda>i flags. if flags ! nat i then mark_multiples limit i flags
                                             else flags)
                                [2 .. int_sqrt limit] is_prime0
            in filter (\<lambda>i. is_prime ! nat i) [2 .. limit]))"

text \<open>The trial-division loop of \<open>_simple_sieve\<close> for one candidate.\<close>

fun simple_sieve_trial :: "int \<Rightarrow> int list \<Rightarrow> bool" where
  "simple_sieve_trial candidate [] = True"
| "simple_sieve_trial candidate (p # ps) =
     (if p * p > candidate then True
      else if candidate mod p = 0 then False
      else simple_sieve_trial candidate ps)"

definition simple_sieve :: "ExtendedWheel \<Rightarrow> int \<Rightarrow> int \<Rightarrow> int list" where
  "simple_sieve w start end =
     (let candidates = generate_candidates w (max 2 start) end;
          limit = int_sqrt end + 1;
          small_primes = get_small_primes limit
      in filter (\<lambda>candidate. simple_sieve_trial candidate small_primes) candidates)"

text \<open>
  \<open>_segmented_sieve\<close>.  For one sieving prime \<open>p\<close>: the \<open>enumerate\<close> loop that looks
  for the first candidate divisible by \<open>p\<close> (index 0 when there is none), then the
  marking loop from that index on.
\<close>

fun find_start_idx :: "int \<Rightarrow> int list \<Rightarrow> nat \<Rightarrow> nat" where
  "find_start_idx p [] i = 0"
| "find_start_idx p (c # cs) i =
     (if c mod p = 0 \<and> c \<noteq> p then i else find_start_idx p cs (Suc i))"

definition mark_segment :: "int list \<Rightarrow> int \<Rightarrow> bool list \<Rightarrow> bool list" where
  "mark_segment candidates p is_prime =
     (let start_idx = find_start_idx p candidates 0
      in fold (\<lambda>i flags. if candidates ! i mod p = 0 \<and> candidates ! i \<noteq> p
                          then flags[i := False] else flags)
              [start_idx ..< length candidates] is_prime)"

definition sieve_segment :: "int list \<Rightarrow> int list \<Rightarrow> int list" where
  "sieve_segment small_primes candidates =
     (let is_prime = fold (mark_segment candidates) small_primes
                          (replicate (length candidates) True)
      in map (\<lambda>i. candidates ! i) (filter (\<lambda>i. is_prime ! i) [0 ..< length candidates]))"

text \<open>
  The \<open>while current <= end\<close> loop over segments.  \<open>sieve\<close> is the only caller and
  passes no \<open>segment_size\<close>, so the parameter is its default.
\<close>

definition segment_size :: int where
  "segment_size = 100000"

function segment_loop :: "ExtendedWheel \<Rightarrow> int list \<Rightarrow> int \<Rightarrow> int \<Rightarrow> int list" where
  "segment_loop w small_primes end current =
     (if current \<le> end then
        (let segment_end = min (current + segment_size) end;
             candidates = generate_candidates w current segment_end
         in sieve_segment small_primes candidates
            @ segment_loop w small_primes end (segment_end + 1))
      else [])"
  by pat_completeness auto
termination
  by (relation "measure (\<lambda>(w, ps, end, current). nat (end + 1 - current))")
     (auto simp: segment_size_def)

declare segment_loop.simps [simp del]

definition segmented_sieve :: "ExtendedWheel \<Rightarrow> int \<Rightarrow> int \<Rightarrow> int list" where
  "segmented_sieve w start end =
     (let limit = int_sqrt end + 1;
          small_primes = get_small_primes limit
      in segment_loop w small_primes end start)"

definition sieve :: "ExtendedWheel \<Rightarrow> int \<Rightarrow> int \<Rightarrow> int list" where
  "sieve w start end =
     (if end < 2 then []
      else if end - start < 10000 then simple_sieve w start end
      else segmented_sieve w start end)"

text \<open>The module-level \<open>is_prime_wheel\<close>; the default of \<open>wheel_size\<close> is 30.\<close>

fun is_prime_wheel_trial :: "int \<Rightarrow> int list \<Rightarrow> bool" where
  "is_prime_wheel_trial n [] = True"
| "is_prime_wheel_trial n (candidate # rest) =
     (if candidate * candidate > n then True
      else if n mod candidate = 0 then False
      else is_prime_wheel_trial n rest)"

definition is_prime_wheel :: "int \<Rightarrow> int \<Rightarrow> error + bool" where
  "is_prime_wheel n ws =
     (if n < 2 then Inr False
      else (case ExtendedWheel_init ws True of
              Inl e \<Rightarrow> Inl e
            | Inr wheel \<Rightarrow>
                if n \<in> set (basis_primes wheel) then Inr True
                else if list_ex (\<lambda>p. n mod p = 0) (basis_primes wheel) then Inr False
                else (let limit = int_sqrt n + 1
                      in Inr (is_prime_wheel_trial n (generate_candidates wheel 2 limit)))))"

section \<open>decimal\_rivers.py\<close>

text \<open>
  A \<open>Counter\<close> is a dictionary of integer counts, kept as the list of its items in
  insertion order.  Reading a missing key gives 0 and stores nothing; \<open>c[k] += 1\<close>
  updates the entry of \<open>k\<close> in place or appends a new one.
\<close>

type_synonym 'k counter = "('k \<times> int) list"

definition counter_get :: "'k counter \<Rightarrow> 'k \<Rightarrow> int" where
  "counter_get c k = (case map_of c k of None \<Rightarrow> 0 | Some v \<Rightarrow> v)"

fun dict_set :: "'k \<Rightarrow> 'v \<Rightarrow> ('k \<times> 'v) list \<Rightarrow> ('k \<times> 'v) list" where
  "dict_set k v [] = [(k, v)]"
| "dict_set k v ((k', v') # rest) =
     (if k' = k then (k, v) # rest else (k', v') # dict_set k v rest)"

definition counter_incr :: "'k \<Rightarrow> 'k counter \<Rightarrow> 'k counter" where
  "counter_incr k c = dict_set k (counter_get c k + 1) c"

record DecimalRivers =
  transition_matrix :: "(int \<times> int counter) list"
  digit_frequencies :: "int counter"
  prime_cache :: "int list"

definition DecimalRivers_init :: DecimalRivers where
  "DecimalRivers_init = \<lparr> transition_matrix = [], digit_frequencies = [], prime_cache = [] \<rparr>"

text \<open>
  The two loops of \<open>analyze_primes\<close>.  \<open>self.transition_matrix[d]\<close> on the
  \<open>defaultdict\<close> creates an empty counter for a digit seen for the first time.
\<close>

definition count_digit :: "int \<Rightarrow> int counter \<Rightarrow> int counter" where
  "count_digit prime freqs =
     (if prime > 5 then (let last_digit = prime mod 10 in counter_incr last_digit freqs)
      else freqs)"

definition count_transition :: "int \<times> int \<Rightarrow> (int \<times> int counter) list \<Rightarrow> (int \<times> int counter) list" where
  "count_transition pq tm =
     (case pq of (p, q) \<Rightarrow>
        if p > 5 \<and> q > 5 then
          (let curr_digit = p mod 10; next_digit = q mod 10;
               row = (case map_of tm curr_digit of None \<Rightarrow> [] | Some r \<Rightarrow> r)
           in dict_set curr_digit (counter_incr next_digit row) tm)
        else tm)"

text \<open>
  What \<open>analyze_primes\<close> does to the object.  Its return value, the report of
  \<open>_compile_analysis\<close>, is a reading of the new state and is not modelled.
\<close>

definition analyze_primes :: "DecimalRivers \<Rightarrow> int list \<Rightarrow> DecimalRivers" where
  "analyze_primes self primes =
     \<lparr> transition_matrix = fold count_transition (zip primes (tl primes)) (transition_matrix self),
       digit_frequencies = fold count_digit primes (digit_frequencies self),
       prime_cache = primes \<rparr>"

text \<open>
  \<open>get_river_score\<close>.  Python's \<open>freq / total\<close> on two integers is the float
  nearest to the exact quotient; the model returns the exact quotient, and the
  literals \<open>0.0\<close> and \<open>0.5\<close> as the rationals they denote.
\<close>

definition get_river_score :: "DecimalRivers \<Rightarrow> int \<Rightarrow> rat" where
  "get_river_score self candidate =
     (let last_digit = candidate mod 10
      in if last_digit \<notin> set [1, 3, 7, 9] then 0
         else if digit_frequencies self = [] then 1 / 2
         else (let total = sum_list (map snd (digit_frequencies self));
                   freq = counter_get (digit_frequencies self) last_digit
               in if total > 0 then of_int freq / of_int total else 1 / 2))"

text \<open>The states an object goes through: constructed, then any calls of \<open>analyze_primes\<close>.\<close>

inductive observed :: "DecimalRivers \<Rightarrow> bool" where
  observed_init: "observed DecimalRivers_init"
| observed_analyze: "observed self \<Longrightarrow> observed (analyze_primes self primes)"

section \<open>Reference notions\<close>

text \<open>
  What the specification means by a prime: an integer above 1 that no integer from 2
  up to itself minus 1 divides.  Not taken from the source.
\<close>

definition is_prime_number :: "int \<Rightarrow> bool" where
  "is_prime_number n = (1 < n \<and> list_all (\<lambda>d. n mod d \<noteq> 0) [2 .. n - 1])"


section \<open>Properties of the wheel\<close>

lemma spoke_loop_elems:
  "c \<in> set (fst (spoke_loop w s e cw sps)) \<Longrightarrow> \<exists>sp \<in> set sps. c = cw + sp"
proof (induction sps)
  case Nil
  then show ?case by simp
next
  case (Cons spoke rest)
  obtain ys stop where r: "spoke_loop w s e cw rest = (ys, stop)"
    by (cases "spoke_loop w s e cw rest")
  from Cons.prems r have "c = cw + spoke \<or> c \<in> set ys"
    by (simp add: Let_def split: if_splits)
  with Cons.IH r show ?case by auto
qed

lemma wheel_loop_lower:
  "\<forall>sp \<in> set (spokes w). 0 < sp \<Longrightarrow> c \<in> set (wheel_loop w s e cw) \<Longrightarrow> cw < c"
proof (induction w s e cw rule: wheel_loop.induct)
  case (1 w s e cw)
  show ?case
  proof (cases "cw \<le> e \<and> 0 < wheel_size w")
    case False
    with "1.prems" show ?thesis by (simp add: wheel_loop.simps[of w s e cw])
  next
    case True
    obtain ys stop where sl: "spoke_loop w s e cw (spokes w) = (ys, stop)"
      by (cases "spoke_loop w s e cw (spokes w)")
    have ys: "c \<in> set ys \<Longrightarrow> cw < c"
      using spoke_loop_elems[of c w s e cw "spokes w"] sl "1.prems"(1) by auto
    show ?thesis
    proof (cases stop)
      case True
      with \<open>cw \<le> e \<and> 0 < wheel_size w\<close> sl "1.prems"(2) ys show ?thesis
        by (simp add: wheel_loop.simps[of w s e cw])
    next
      case False
      with True sl "1.prems"(2) have "c \<in> set ys \<or> c \<in> set (wheel_loop w s e (cw + wheel_size w))"
        by (simp add: wheel_loop.simps[of w s e cw])
      then show ?thesis
      proof
        assume "c \<in> set ys" then show ?thesis by (rule ys)
      next
        assume "c \<in> set (wheel_loop w s e (cw + wheel_size w))"
        then have "cw + wheel_size w < c"
          using "1.IH"[OF True sl[symmetric] False "1.prems"(1)] by simp
        with True show ?thesis by simp
      qed
    qed
  qed
qed

lemma init_spokes_pos:
  "ExtendedWheel_init ws da = Inr w \<Longrightarrow> \<forall>sp \<in> set (spokes w). 0 < sp"
proof -
  assume "ExtendedWheel_init ws da = Inr w"
  then obtain basis where "spokes w = generate_spokes ws basis"
    by (auto simp: ExtendedWheel_init_def Let_def split: option.splits)
  then show ?thesis by (simp add: generate_spokes_def)
qed

lemma generate_candidates_above_wheel_start:
  assumes "ExtendedWheel_init ws da = Inr w" and "c \<in> set (generate_candidates w start end)"
  shows "c \<in> set (basis_primes w) \<or> ((start - 1) div wheel_size w + 1) * wheel_size w < c"
  using assms(2) wheel_loop_lower[OF init_spokes_pos[OF assms(1)]]
  by (auto simp: generate_candidates_def Let_def)

text \<open>
  C6 (as stated).  A wheel of size 210 built with the default arguments, asked for the
  candidates in \<open>[200, 230]\<close>, is claimed to emit exactly
  211, 213, 217, 219, 221, 223, 227, 229.  It does not: 213, 217 and 219 are multiples
  of 3 or 7 and no spoke produces them.
\<close>

theorem wheel_210_candidates_not_as_listed:
  "\<not> isl (ExtendedWheel_init 210 True) \<and>
   generate_candidates (projr (ExtendedWheel_init 210 True)) 200 230
     \<noteq> [211, 213, 217, 219, 221, 223, 227, 229]"
  by code_simp

text \<open>
  C6 (amended).  The same call emits its candidates in strictly ascending order, each
  of them in \<open>[200, 230]\<close> and a multiple of none of 2, 3, 5, 7; and the candidates from
  210 upwards that it emits are exactly 211, 221, 223, 227, 229, which are all the
  integers of \<open>[210, 230]\<close> that are multiples of none of 2, 3, 5, 7.
\<close>

theorem wheel_210_candidates_from_210:
  "\<not> isl (ExtendedWheel_init 210 True) \<and>
   sorted_wrt (<) (generate_candidates (projr (ExtendedWheel_init 210 True)) 200 230) \<and>
   list_all (\<lambda>c. 200 \<le> c \<and> c \<le> 230 \<and> list_all (\<lambda>p. c mod p \<noteq> 0) [2, 3, 5, 7])
     (generate_candidates (projr (ExtendedWheel_init 210 True)) 200 230) \<and>
   filter (\<lambda>c. 210 \<le> c) (generate_candidates (projr (ExtendedWheel_init 210 True)) 200 230)
     = [211, 221, 223, 227, 229] \<and>
   filter (\<lambda>c. list_all (\<lambda>p. c mod p \<noteq> 0) [2, 3, 5, 7]) [210 .. 230]
     = [211, 221, 223, 227, 229]"
  by code_simp

text \<open>
  C7 (failing input).  The claim is that \<open>sieve(start, end)\<close> returns exactly the primes
  of \<open>[start, end]\<close>.  On the default wheel, \<open>sieve(2, 30)\<close> returns \<open>[2, 3, 5]\<close>; the
  prime 7 lies in the range and is missing.
\<close>

theorem sieve_2_30_misses_primes:
  "\<not> isl (ExtendedWheel_init 30 True) \<and>
   sieve (projr (ExtendedWheel_init 30 True)) 2 30 = [2, 3, 5] \<and>
   is_prime_number 7"
  by code_simp

text \<open>
  C8.  \<open>is_prime_wheel(49)\<close> with the default wheel size 30 returns \<open>True\<close> although
  49 is not prime.  The reason: whatever wheel is constructed, every value that
  \<open>generate_candidates(start, end)\<close> emits is a basis prime or lies above
  \<open>((start - 1) // wheel_size + 1) * wheel_size\<close>; so the divisor 7 is not among the
  trial divisors \<open>generate_candidates(2, 8)\<close> of the size-30 wheel.
\<close>

theorem is_prime_wheel_accepts_49:
  assumes "ExtendedWheel_init ws da = Inr w"
  shows "is_prime_wheel 49 30 = Inr True \<and> \<not> is_prime_number 49 \<and>
         7 \<notin> set (generate_candidates (projr (ExtendedWheel_init 30 True)) 2 8) \<and>
         (\<forall>c \<in> set (generate_candidates w start end).
            c \<in> set (basis_primes w) \<or> ((start - 1) div wheel_size w + 1) * wheel_size w < c)"
proof -
  have a: "is_prime_wheel 49 30 = Inr True" by code_simp
  have b: "\<not> is_prime_number 49" by code_simp
  have c: "7 \<notin> set (generate_candidates (projr (ExtendedWheel_init 30 True)) 2 8)"
    by code_simp
  show ?thesis
    using a b c generate_candidates_above_wheel_start[OF assms] by blast
qed

theorem is_prime_wheel_accepts_49_witness:
  "ExtendedWheel_init 30 True = Inr (projr (ExtendedWheel_init 30 True)) \<and>
   is_prime_wheel 49 30 = Inr True \<and> \<not> is_prime_number 49 \<and>
   7 \<notin> set (generate_candidates (projr (ExtendedWheel_init 30 True)) 2 8) \<and>
   list_all (\<lambda>c. c \<in> set (basis_primes (projr (ExtendedWheel_init 30 True))) \<or>
      ((2 - 1) div wheel_size (projr (ExtendedWheel_init 30 True)) + 1)
        * wheel_size (projr (ExtendedWheel_init 30 True)) < c)
     (generate_candidates (projr (ExtendedWheel_init 30 True)) 2 8)"
proof -
  have h: "ExtendedWheel_init 30 True = Inr (projr (ExtendedWheel_init 30 True))"
    by code_simp
  show ?thesis
    using h is_prime_wheel_accepts_49 [OF h, of 2 8] by (simp add: list_all_iff)
qed

section \<open>Properties of the digit statistics\<close>

lemma counter_get_bounds:
  "\<forall>x \<in> set c. 0 \<le> snd x \<Longrightarrow> 0 \<le> counter_get c k \<and> counter_get c k \<le> sum_list (map snd c)"
proof (induction c)
  case Nil
  then show ?case by (simp add: counter_get_def)
next
  case (Cons a c)
  have nn: "0 \<le> sum_list (map snd c)"
    using Cons.prems by (intro sum_list_nonneg) auto
  have ih: "0 \<le> counter_get c k \<and> counter_get c k \<le> sum_list (map snd c)"
    using Cons by simp
  have a: "0 \<le> snd a" using Cons.prems by simp
  show ?case
  proof (cases "fst a = k")
    case True
    then have "counter_get (a # c) k = snd a" by (cases a) (simp add: counter_get_def)
    with a nn show ?thesis by simp
  next
    case False
    then have "counter_get (a # c) k = counter_get c k" by (cases a) (simp add: counter_get_def)
    with a ih show ?thesis by simp
  qed
qed

lemma dict_set_vals: "x \<in> set (dict_set k v c) \<Longrightarrow> snd x = v \<or> x \<in> set c"
  by (induction c) (auto split: if_splits)

lemma counter_incr_pos:
  assumes "\<forall>x \<in> set c. 1 \<le> snd x"
  shows "\<forall>x \<in> set (counter_incr k c). 1 \<le> snd x"
proof
  fix x assume x: "x \<in> set (counter_incr k c)"
  have nn: "\<forall>x \<in> set c. 0 \<le> snd x"
  proof
    fix y assume "y \<in> set c"
    with assms have "1 \<le> snd y" by (rule bspec)
    then show "0 \<le> snd y" by simp
  qed
  have g: "0 \<le> counter_get c k" using counter_get_bounds[OF nn, of k] by (rule conjunct1)
  have "snd x = counter_get c k + 1 \<or> x \<in> set c"
    using x unfolding counter_incr_def by (rule dict_set_vals)
  then show "1 \<le> snd x"
  proof
    assume "snd x = counter_get c k + 1"
    with g show ?thesis by simp
  next
    assume "x \<in> set c"
    with assms show ?thesis by (rule bspec)
  qed
qed

lemma fold_count_digit_pos:
  "\<forall>x \<in> set c. 1 \<le> snd x \<Longrightarrow> \<forall>x \<in> set (fold count_digit ps c). 1 \<le> snd x"
proof (induction ps arbitrary: c)
  case Nil then show ?case by simp
next
  case (Cons p ps)
  have "\<forall>x \<in> set (count_digit p c). 1 \<le> snd x"
    using counter_incr_pos[OF Cons.prems] Cons.prems by (simp add: count_digit_def Let_def)
  then show ?case using Cons.IH by simp
qed

lemma observed_pos: "observed s \<Longrightarrow> \<forall>x \<in> set (digit_frequencies s). 1 \<le> snd x"
proof (induction rule: observed.induct)
  case observed_init
  then show ?case by (simp add: DecimalRivers_init_def)
next
  case (observed_analyze self primes)
  then show ?case using fold_count_digit_pos by (simp add: analyze_primes_def)
qed

lemma sum_pos:
  assumes "c \<noteq> []" and "\<forall>x \<in> set c. 1 \<le> snd x"
  shows "0 < sum_list (map snd (c::int counter))"
proof (cases c)
  case Nil with assms show ?thesis by simp
next
  case (Cons a c')
  have "0 \<le> sum_list (map snd c')" using assms(2) Cons by (intro sum_list_nonneg) force
  moreover have "1 \<le> snd a" using assms(2) Cons by simp
  ultimately show ?thesis using Cons by simp
qed

lemma river_score_invalid:
  "candidate mod 10 \<notin> set [1, 3, 7, 9] \<Longrightarrow> get_river_score self candidate = 0"
  unfolding get_river_score_def Let_def by (rule if_P)

lemma river_score_no_data:
  "\<not> candidate mod 10 \<notin> set [1, 3, 7, 9] \<Longrightarrow> digit_frequencies self = [] \<Longrightarrow>
     get_river_score self candidate = 1 / 2"
  unfolding get_river_score_def Let_def by (simp only: if_True if_False simp_thms)

lemma river_score_data:
  "\<not> candidate mod 10 \<notin> set [1, 3, 7, 9] \<Longrightarrow> digit_frequencies self \<noteq> [] \<Longrightarrow>
   0 < sum_list (map snd (digit_frequencies self)) \<Longrightarrow>
     get_river_score self candidate =
       of_int (counter_get (digit_frequencies self) (candidate mod 10))
       / of_int (sum_list (map snd (digit_frequencies self)))"
  unfolding get_river_score_def Let_def by (simp only: if_True if_False simp_thms)

text \<open>
  C10.  In every state an object can be in, \<open>get_river_score(candidate)\<close> lies in
  \<open>[0, 1]\<close>; it is 0 when \<open>candidate mod 10\<close> is not one of 1, 3, 7, 9, whatever was
  observed; for the other candidates it is one half when no digit frequency has been
  recorded, and otherwise the recorded frequency of the last digit divided by the total
  of all recorded frequencies.
\<close>

theorem get_river_score_spec:
  assumes "observed self"
  shows "0 \<le> get_river_score self candidate \<and> get_river_score self candidate \<le> 1
    \<and> (candidate mod 10 \<notin> {1, 3, 7, 9} \<longrightarrow> get_river_score self candidate = 0)
    \<and> (candidate mod 10 \<in> {1, 3, 7, 9} \<and> digit_frequencies self = [] \<longrightarrow>
          get_river_score self candidate = 1 / 2)
    \<and> (candidate mod 10 \<in> {1, 3, 7, 9} \<and> digit_frequencies self \<noteq> [] \<longrightarrow>
          get_river_score self candidate =
            of_int (counter_get (digit_frequencies self) (candidate mod 10))
            / of_int (sum_list (map snd (digit_frequencies self))))"
proof -
  let ?df = "digit_frequencies self"
  let ?ok = "candidate mod 10 \<in> set [1, 3, 7, 9]"
  let ?q = "(of_int (counter_get ?df (candidate mod 10)) :: rat) / of_int (sum_list (map snd ?df))"
  have pos: "\<forall>x \<in> set ?df. 1 \<le> snd x" using observed_pos[OF assms] .
  then have nn: "\<forall>x \<in> set ?df. 0 \<le> snd x" by force
  have b: "0 \<le> counter_get ?df k \<and> counter_get ?df k \<le> sum_list (map snd ?df)" for k
    using counter_get_bounds[OF nn] .
  have tot: "?df \<noteq> [] \<Longrightarrow> 0 < sum_list (map snd ?df)" using sum_pos pos by blast
  have q0: "?df \<noteq> [] \<Longrightarrow> 0 \<le> ?q"
    using b[of "candidate mod 10"] tot by (simp add: zero_le_divide_iff)
  have q1: "?df \<noteq> [] \<Longrightarrow> ?q \<le> 1"
    using b[of "candidate mod 10"] tot by (simp add: divide_le_eq_1)
  have inv: "\<not> ?ok \<Longrightarrow> get_river_score self candidate = 0"
    by (rule river_score_invalid)
  have nod: "?ok \<Longrightarrow> ?df = [] \<Longrightarrow> get_river_score self candidate = 1 / 2"
    by (rule river_score_no_data) blast+
  have dat: "?ok \<Longrightarrow> ?df \<noteq> [] \<Longrightarrow> get_river_score self candidate = ?q"
    by (rule river_score_data) (use tot in blast)+
  have range: "0 \<le> get_river_score self candidate \<and> get_river_score self candidate \<le> 1"
  proof -
    consider (bad) "\<not> ?ok" | (empty) "?ok" "?df = []" | (data) "?ok" "?df \<noteq> []"
      by blast
    then show ?thesis
    proof cases
      case bad
      have "get_river_score self candidate = 0" by (rule inv[OF bad])
      then show ?thesis by simp
    next
      case empty
      have "get_river_score self candidate = 1 / 2" by (rule nod[OF empty])
      then show ?thesis by simp
    next
      case data
      have "get_river_score self candidate = ?q" by (rule dat[OF data])
      then show ?thesis using q0[OF data(2)] q1[OF data(2)] by (simp only:) 
    qed
  qed
  have S: "set [1, 3, 7, 9 :: int] = {1, 3, 7, 9}" by simp
  show ?thesis using range inv nod dat unfolding S by blast
qed

theorem get_river_score_spec_witness:
  "observed (analyze_primes DecimalRivers_init [7, 11, 13, 17]) \<and>
   get_river_score (analyze_primes DecimalRivers_init [7, 11, 13, 17]) 37 = 1 / 2 \<and>
   get_river_score (analyze_primes DecimalRivers_init [7, 11, 13, 17]) 35 = 0 \<and>
   get_river_score DecimalRivers_init 37 = 1 / 2"
proof -
  have h: "observed (analyze_primes DecimalRivers_init [7, 11, 13, 17])"
    by (rule observed_analyze [OF observed_init])
  have d: "digit_frequencies (analyze_primes DecimalRivers_init [7, 11, 13, 17])
             = [(7, 2), (1, 1), (3, 1)]"
    by code_simp
  have m: "(37::int) mod 10 = 7" "(35::int) mod 10 = 5" by simp_all
  show ?thesis
    using h get_river_score_spec [OF h, of 37] get_river_score_spec [OF h, of 35]
      get_river_score_spec [OF observed_init, of 37]
    unfolding d m by (simp add: counter_get_def DecimalRivers_init_def)
qed

end
